theory Spec2Isabelle
  imports Main "HOL-Library.Multiset"
begin

section \<open>Python values used by the tracker\<close>

text \<open>
  Python strings are modelled as \<^typ>\<open>string\<close>, one \<^typ>\<open>char\<close> per code point, so
  only code points below 256 are covered. Exceptions are values of \<open>exn\<close>; a call that
  may raise returns \<open>exn + 'a\<close> with \<open>Inl\<close> for the raised exception.
\<close>

datatype exn = OSError | ValueError | OverflowError | KeyError

subsection \<open>datetime: the fields of a naive \<open>datetime.datetime\<close>\<close>

record datetime =
  year :: nat
  month :: nat
  day :: nat
  hour :: nat
  minute :: nat
  second :: nat
  microsecond :: nat

definition is_leap :: "nat \<Rightarrow> bool" where
  "is_leap y = (y mod 4 = 0 \<and> (y mod 100 \<noteq> 0 \<or> y mod 400 = 0))"

definition days_before_year :: "nat \<Rightarrow> nat" where
  "days_before_year y = (let p = y - 1 in p * 365 + p div 4 - p div 100 + p div 400)"

text \<open>\<open>_DAYS_IN_MONTH\<close> and \<open>_DAYS_BEFORE_MONTH\<close>; index 0 is a placeholder, as in CPython.\<close>

definition DAYS_IN_MONTH :: "nat list" where
  "DAYS_IN_MONTH = [0, 31, 28, 31, 30, 31, 30, 31, 31, 30, 31, 30, 31]"

definition DAYS_BEFORE_MONTH :: "nat list" where
  "DAYS_BEFORE_MONTH = [0, 0, 31, 59, 90, 120, 151, 181, 212, 243, 273, 304, 334]"

definition days_in_month :: "nat \<Rightarrow> nat \<Rightarrow> nat" where
  "days_in_month y m = (if m = 2 \<and> is_leap y then 29 else DAYS_IN_MONTH ! m)"

definition days_before_month :: "nat \<Rightarrow> nat \<Rightarrow> nat" where
  "days_before_month y m = DAYS_BEFORE_MONTH ! m + (if m > 2 \<and> is_leap y then 1 else 0)"

definition ymd2ord :: "nat \<Rightarrow> nat \<Rightarrow> nat \<Rightarrow> nat" where
  "ymd2ord y m d = days_before_year y + days_before_month y m + d"

definition MAXORDINAL :: nat where
  "MAXORDINAL = 3652059"

text \<open>\<open>_ord2ymd\<close>: the proleptic Gregorian date of an ordinal, by 400/100/4/1-year cycles.\<close>

definition ord2ymd :: "nat \<Rightarrow> nat \<times> nat \<times> nat" where
  "ord2ymd n0 =
     (let n = n0 - 1;
          n400 = n div 146097; n = n mod 146097;
          n100 = n div 36524; n = n mod 36524;
          n4 = n div 1461; n = n mod 1461;
          n1 = n div 365; n = n mod 365;
          y = n400 * 400 + 1 + n100 * 100 + n4 * 4 + n1
      in if n1 = 4 \<or> n100 = 4 then (y - 1, 12, 31)
         else
           let leapyear = (n1 = 3 \<and> (n4 \<noteq> 24 \<or> n100 = 3));
               m = (n + 50) div 32;
               preceding = DAYS_BEFORE_MONTH ! m + (if m > 2 \<and> leapyear then 1 else 0)
           in if preceding > n
              then let m' = m - 1;
                       preceding' = preceding - (DAYS_IN_MONTH ! m' + (if m' = 2 \<and> leapyear then 1 else 0))
                   in (y, m', n - preceding' + 1)
              else (y, m, n - preceding + 1))"

definition valid_datetime :: "datetime \<Rightarrow> bool" where
  "valid_datetime d =
     (1 \<le> year d \<and> year d \<le> 9999 \<and> 1 \<le> month d \<and> month d \<le> 12 \<and>
      1 \<le> day d \<and> day d \<le> days_in_month (year d) (month d) \<and>
      hour d < 24 \<and> minute d < 60 \<and> second d < 60 \<and> microsecond d < 1000000)"

text \<open>
  \<open>dt + timedelta(days=n)\<close>: the sum is normalised through the ordinal of the date and
  raises \<open>OverflowError\<close> beyond 9999-12-31.
\<close>

definition add_days :: "datetime \<Rightarrow> nat \<Rightarrow> exn + datetime" where
  "add_days d n =
     (let secs_all = hour d * 3600 + minute d * 60 + second d + microsecond d div 1000000;
          days = ymd2ord (year d) (month d) (day d) + n + secs_all div 86400;
          secs = secs_all mod 86400;
          rem = secs mod 3600
      in if 0 < days \<and> days \<le> MAXORDINAL
         then (case ord2ymd days of (y, m, dd) \<Rightarrow>
                 Inr \<lparr>year = y, month = m, day = dd, hour = secs div 3600,
                      minute = rem div 60, second = rem mod 60,
                      microsecond = microsecond d mod 1000000\<rparr>)
         else Inl OverflowError)"

text \<open>Comparison of naive datetimes is the lexicographic comparison of their fields.\<close>

fun lex_gt :: "nat list \<Rightarrow> nat list \<Rightarrow> bool" where
  "lex_gt (x # xs) (y # ys) = (x > y \<or> (x = y \<and> lex_gt xs ys))"
| "lex_gt (x # xs) [] = True"
| "lex_gt [] ys = False"

definition dt_fields :: "datetime \<Rightarrow> nat list" where
  "dt_fields d = [year d, month d, day d, hour d, minute d, second d, microsecond d]"

definition dt_gt :: "datetime \<Rightarrow> datetime \<Rightarrow> bool" where
  "dt_gt a b = lex_gt (dt_fields a) (dt_fields b)"

subsection \<open>\<open>isoformat\<close> and \<open>fromisoformat\<close>\<close>

definition digit_char :: "nat \<Rightarrow> char" where
  "digit_char d = ''0123456789'' ! d"

fun str_nat :: "nat \<Rightarrow> string" where
  "str_nat n = (if n < 10 then [digit_char n] else str_nat (n div 10) @ [digit_char (n mod 10)])"

declare str_nat.simps [simp del]

text \<open>\<open>"%0wd" % n\<close>\<close>

definition zpad :: "nat \<Rightarrow> nat \<Rightarrow> string" where
  "zpad w n = replicate (w - length (str_nat n)) (CHR ''0'') @ str_nat n"

definition iso_date :: "datetime \<Rightarrow> string" where
  "iso_date d = zpad 4 (year d) @ ''-'' @ zpad 2 (month d) @ ''-'' @ zpad 2 (day d)"

definition iso_time :: "datetime \<Rightarrow> string" where
  "iso_time d =
     zpad 2 (hour d) @ '':'' @ zpad 2 (minute d) @ '':'' @ zpad 2 (second d) @
     (if microsecond d \<noteq> 0 then ''.'' @ zpad 6 (microsecond d) else [])"

definition isoformat :: "datetime \<Rightarrow> string" where
  "isoformat d = iso_date d @ ''T'' @ iso_time d"

definition digit_val :: "char \<Rightarrow> nat option" where
  "digit_val c =
     map_of [(CHR ''0'', 0), (CHR ''1'', 1), (CHR ''2'', 2), (CHR ''3'', 3), (CHR ''4'', 4),
             (CHR ''5'', 5), (CHR ''6'', 6), (CHR ''7'', 7), (CHR ''8'', 8), (CHR ''9'', 9)] c"

fun parse_nat :: "nat \<Rightarrow> string \<Rightarrow> nat option" where
  "parse_nat acc [] = Some acc"
| "parse_nat acc (c # cs) =
     (case digit_val c of None \<Rightarrow> None | Some v \<Rightarrow> parse_nat (acc * 10 + v) cs)"

text \<open>
  \<open>datetime.fromisoformat\<close> on the two shapes that \<open>isoformat\<close> emits for a naive
  datetime, \<open>YYYY-MM-DDTHH:MM:SS\<close> and \<open>YYYY-MM-DDTHH:MM:SS.ffffff\<close>, with the range
  checks of the constructor. Every other string is reported as \<open>ValueError\<close> here
  (CPython parses some further ISO 8601 shapes, none of which the tracker stores).
\<close>

definition fromisoformat :: "string \<Rightarrow> exn + datetime" where
  "fromisoformat s =
     (if (length s = 19 \<or> (length s = 26 \<and> s ! 19 = CHR ''.'')) \<and>
         s ! 4 = CHR ''-'' \<and> s ! 7 = CHR ''-'' \<and> s ! 10 = CHR ''T'' \<and>
         s ! 13 = CHR '':'' \<and> s ! 16 = CHR '':''
      then
        (case (parse_nat 0 (take 4 s), parse_nat 0 (take 2 (drop 5 s)),
               parse_nat 0 (take 2 (drop 8 s)), parse_nat 0 (take 2 (drop 11 s)),
               parse_nat 0 (take 2 (drop 14 s)), parse_nat 0 (take 2 (drop 17 s)),
               parse_nat 0 (drop 20 s)) of
           (Some y, Some m, Some d, Some h, Some mi, Some sec, Some us) \<Rightarrow>
             (let r = \<lparr>year = y, month = m, day = d, hour = h, minute = mi,
                       second = sec, microsecond = us\<rparr>
              in if valid_datetime r then Inr r else Inl ValueError)
         | _ \<Rightarrow> Inl ValueError)
      else Inl ValueError)"

section \<open>The tracker's store\<close>

text \<open>
  \<open>LinkTracker._tokens\<close> and \<open>LinkTracker._clicks\<close> are class-level dictionaries, shared by
  every instance: one store, passed in and returned by every operation.
\<close>

record token_data =
  target_url :: string
  email :: "string option"
  campaign :: string
  created_at :: string
  expires_at :: string
  click_count :: nat

record click_data =
  ip_address :: string
  user_agent :: string
  timestamp :: string
  click_hash :: string

record store =
  tokens :: "string \<rightharpoonup> token_data"
  clicks :: "string \<rightharpoonup> click_data list"

definition empty_store :: store where
  "empty_store = \<lparr>tokens = Map.empty, clicks = Map.empty\<rparr>"

text \<open>
  The dictionary returned by \<open>track_click\<close>: \<open>{'success': False, 'error': ...}\<close> or
  \<open>{'success': True, 'target_url': ..., 'timestamp': ..., 'click_count': ...}\<close>. The error
  text is a literal, or \<open>str(e)\<close> of a caught exception \<open>e\<close>.
\<close>

datatype error_text = Text string | Str_of exn

datatype outcome = Failure error_text | Success string string nat

section \<open>Operations of \<open>LinkTracker\<close>\<close>

text \<open>
  \<open>generate_token\<close>. The environment is explicit: \<open>rnd\<close> is what
  \<open>secrets.token_urlsafe(self.token_length)\<close> returns or raises, \<open>now1\<close> and \<open>now2\<close> are
  the two readings of \<open>datetime.utcnow()\<close>, in the order the code takes them. The handler
  logs and re-raises, so an exception leaves with the store as it was.
\<close>

definition generate_token ::
  "(exn + string) \<Rightarrow> (exn + datetime) \<Rightarrow> (exn + datetime) \<Rightarrow>
   store \<Rightarrow> string \<Rightarrow> string option \<Rightarrow> string \<Rightarrow> (exn + string) \<times> store" where
  "generate_token rnd now1 now2 st url em camp =
     (case rnd of Inl e \<Rightarrow> (Inl e, st) | Inr token \<Rightarrow>
      case now1 of Inl e \<Rightarrow> (Inl e, st) | Inr t1 \<Rightarrow>
      case now2 of Inl e \<Rightarrow> (Inl e, st) | Inr t2 \<Rightarrow>
      case add_days t2 90 of Inl e \<Rightarrow> (Inl e, st) | Inr t3 \<Rightarrow>
        (Inr token,
         st\<lparr>tokens := (tokens st)(token \<mapsto>
               \<lparr>target_url = url, email = em, campaign = camp,
                created_at = isoformat t1, expires_at = isoformat t3, click_count = 0\<rparr>),
            clicks := (clicks st)(token \<mapsto> [])\<rparr>))"

text \<open>
  \<open>_generate_click_hash\<close>: the SHA-256 hex digest of \<open>token:ip_address\<close>; the digest
  function of \<open>hashlib\<close> is a parameter.
\<close>

definition generate_click_hash :: "(string \<Rightarrow> string) \<Rightarrow> string \<Rightarrow> string \<Rightarrow> string" where
  "generate_click_hash sha256_hex token ip = sha256_hex (token @ '':'' @ ip)"

text \<open>
  \<open>track_click\<close>. \<open>now1\<close> is the clock reading of the expiry check, \<open>now2\<close> the one stored
  as the click's timestamp. Any exception inside the body is caught by the handler, which
  returns \<open>{'success': False, 'error': str(e)}\<close>.
\<close>

definition track_click ::
  "(string \<Rightarrow> string) \<Rightarrow> (exn + datetime) \<Rightarrow> (exn + datetime) \<Rightarrow>
   store \<Rightarrow> string \<Rightarrow> string \<Rightarrow> string \<Rightarrow> outcome \<times> store" where
  "track_click sha256_hex now1 now2 st token ip ua =
     (case tokens st token of
        None \<Rightarrow> (Failure (Text ''Invalid token''), st)
      | Some td \<Rightarrow>
          (case fromisoformat (expires_at td) of Inl e \<Rightarrow> (Failure (Str_of e), st) | Inr exp \<Rightarrow>
           case now1 of Inl e \<Rightarrow> (Failure (Str_of e), st) | Inr t1 \<Rightarrow>
           if dt_gt t1 exp then (Failure (Text ''Token expired''), st)
           else
             (case now2 of Inl e \<Rightarrow> (Failure (Str_of e), st) | Inr t2 \<Rightarrow>
              let cd = \<lparr>ip_address = ip, user_agent = ua, timestamp = isoformat t2,
                        click_hash = generate_click_hash sha256_hex token ip\<rparr>
              in case clicks st token of
                   None \<Rightarrow> (Failure (Str_of KeyError), st)
                 | Some cs \<Rightarrow>
                     let n = click_count td + 1
                     in (Success (target_url td) (timestamp cd) n,
                         st\<lparr>clicks := (clicks st)(token \<mapsto> cs @ [cd]),
                            tokens := (tokens st)(token \<mapsto> td\<lparr>click_count := n\<rparr>)\<rparr>))))"

text \<open>\<open>get_token_info\<close>: the token's record together with its click list, or \<open>None\<close>.\<close>

definition clicks_get :: "store \<Rightarrow> string \<Rightarrow> click_data list" where
  "clicks_get st token = (case clicks st token of None \<Rightarrow> [] | Some cs \<Rightarrow> cs)"

definition get_token_info :: "store \<Rightarrow> string \<Rightarrow> (token_data \<times> click_data list) option" where
  "get_token_info st token =
     (case tokens st token of None \<Rightarrow> None | Some td \<Rightarrow> Some (td, clicks_get st token))"

text \<open>\<open>get_click_stats\<close> and its two grouping loops.\<close>

record click_stats =
  total_clicks :: nat
  unique_ips :: nat
  clicks_by_date :: "string \<rightharpoonup> nat"
  clicks_by_user_agent :: "string \<rightharpoonup> nat"
  first_click :: "string option"
  last_click :: "string option"

text \<open>\<open>s.split('T')[0]\<close>: the part of \<open>s\<close> before its first \<open>T\<close>, all of \<open>s\<close> if it has none.\<close>

definition split_T_0 :: "string \<Rightarrow> string" where
  "split_T_0 s = takeWhile (\<lambda>c. c \<noteq> CHR ''T'') s"

text \<open>\<open>for click in clicks: k = key(click); d[k] = d.get(k, 0) + 1\<close>\<close>

primrec group_count :: "(click_data \<Rightarrow> string) \<Rightarrow> click_data list \<Rightarrow> (string \<rightharpoonup> nat) \<Rightarrow> (string \<rightharpoonup> nat)" where
  "group_count key [] d = d"
| "group_count key (c # cs) d =
     group_count key cs (d(key c \<mapsto> (case d (key c) of None \<Rightarrow> 0 | Some n \<Rightarrow> n) + 1))"

definition get_click_stats :: "store \<Rightarrow> string \<Rightarrow> click_stats option" where
  "get_click_stats st token =
     (case tokens st token of
        None \<Rightarrow> None
      | Some td \<Rightarrow>
          let cs = clicks_get st token
          in Some \<lparr>total_clicks = length cs,
                   unique_ips = card (set (map ip_address cs)),
                   clicks_by_date = group_count (\<lambda>c. split_T_0 (timestamp c)) cs Map.empty,
                   clicks_by_user_agent = group_count (\<lambda>c. take 50 (user_agent c)) cs Map.empty,
                   first_click = (if cs \<noteq> [] then Some (timestamp (hd cs)) else None),
                   last_click = (if cs \<noteq> [] then Some (timestamp (last cs)) else None)\<rparr>)"

definition clear_all :: "store \<Rightarrow> store" where
  "clear_all st = st\<lparr>tokens := Map.empty, clicks := Map.empty\<rparr>"

section \<open>The validators\<close>




























section \<open>Sequences of calls\<close>

text \<open>
  A call of the public interface, with what the environment answered during it. The two
  read operations return without touching the store.
\<close>

datatype call =
    Generate_token "exn + string" "exn + datetime" "exn + datetime" string "string option" string
  | Track_click "exn + datetime" "exn + datetime" string string string
  | Get_click_stats string
  | Get_token_info string
  | Clear_all

fun step :: "(string \<Rightarrow> string) \<Rightarrow> store \<Rightarrow> call \<Rightarrow> store" where
  "step sha256_hex st (Generate_token rnd now1 now2 url em camp) =
     snd (generate_token rnd now1 now2 st url em camp)"
| "step sha256_hex st (Track_click now1 now2 token ip ua) =
     snd (track_click sha256_hex now1 now2 st token ip ua)"
| "step sha256_hex st (Get_click_stats token) = st"
| "step sha256_hex st (Get_token_info token) = st"
| "step sha256_hex st Clear_all = clear_all st"

text \<open>The store after a sequence of calls on a freshly loaded class.\<close>

definition run :: "(string \<Rightarrow> string) \<Rightarrow> call list \<Rightarrow> store" where
  "run sha256_hex calls = foldl (step sha256_hex) empty_store calls"

text \<open>
  The store invariant: every token of the token store has a click list, and its
  \<open>click_count\<close> is the length of that list.
\<close>

definition store_inv :: "store \<Rightarrow> bool" where
  "store_inv st =
     (\<forall>token td. tokens st token = Some td \<longrightarrow>
        (\<exists>cs. clicks st token = Some cs \<and> click_count td = length cs))"

section \<open>Example values\<close>

definition ex_click :: "string \<Rightarrow> string \<Rightarrow> string \<Rightarrow> click_data" where
  "ex_click ip ua ts = \<lparr>ip_address = ip, user_agent = ua, timestamp = ts, click_hash = []\<rparr>"

definition ex_td :: token_data where
  "ex_td = \<lparr>target_url = ''https://example.com/x'', email = None, campaign = ''default'',
            created_at = ''2025-01-15T10:30:05'', expires_at = ''2025-04-15T10:30:05'',
            click_count = 3\<rparr>"

definition ex_ua1 :: string where
  "ex_ua1 = ''Mozilla/5.0 (X11; Linux x86_64) AppleWebKit/537.36 (KHTML, like Gecko) Chrome/120.0 Safari/537.36''"

definition ex_ua2 :: string where
  "ex_ua2 = ''Mozilla/5.0 (X11; Linux x86_64) AppleWebKit/537.36 (KHTML, like Gecko) Chrome/121.0 Safari/537.36''"

definition ex_clicks :: "click_data list" where
  "ex_clicks = [ex_click ''1.1.1.1'' ex_ua1 ''2025-01-16T08:00:00'',
                ex_click ''1.1.1.1'' ex_ua2 ''2025-01-16T09:00:00.500000'',
                ex_click ''2.2.2.2'' ''curl/8.0'' ''2025-01-17T08:00:00'']"

definition ex_store :: store where
  "ex_store = \<lparr>tokens = [''tok'' \<mapsto> ex_td], clicks = [''tok'' \<mapsto> ex_clicks]\<rparr>"

definition ex_now :: datetime where
  "ex_now = \<lparr>year = 2025, month = 1, day = 15, hour = 10, minute = 30, second = 5, microsecond = 0\<rparr>"

definition ex_now2 :: datetime where
  "ex_now2 = \<lparr>year = 2025, month = 1, day = 15, hour = 10, minute = 30, second = 5, microsecond = 250\<rparr>"

definition ex_expiry :: datetime where
  "ex_expiry = \<lparr>year = 2025, month = 4, day = 15, hour = 10, minute = 30, second = 5, microsecond = 0\<rparr>"

definition ex_expiry2 :: datetime where
  "ex_expiry2 = \<lparr>year = 2025, month = 4, day = 15, hour = 10, minute = 30, second = 5, microsecond = 250\<rparr>"

definition ex_after :: datetime where
  "ex_after = \<lparr>year = 2025, month = 4, day = 15, hour = 10, minute = 30, second = 5, microsecond = 1\<rparr>"

definition ex_later :: datetime where
  "ex_later = \<lparr>year = 2025, month = 1, day = 18, hour = 8, minute = 0, second = 0, microsecond = 0\<rparr>"

definition ex_last_month :: datetime where
  "ex_last_month = \<lparr>year = 9999, month = 12, day = 1, hour = 0, minute = 0, second = 0, microsecond = 0\<rparr>"

definition ex_calls :: "call list" where
  "ex_calls =
     [Generate_token (Inr ''tok'') (Inr ex_now) (Inr ex_now2) ''https://example.com/x'' None ''default'',
      Track_click (Inr ex_later) (Inr ex_later) ''tok'' ''1.1.1.1'' ''curl/8.0'',
      Get_click_stats ''tok'',
      Track_click (Inr ex_later) (Inr ex_later) ''doesnotexist'' ''1.1.1.1'' ''curl/8.0'']"

section \<open>Properties\<close>

subsection \<open>Grouping and the date portion of a timestamp\<close>

lemma group_count_lookup:
  "group_count key cs d k =
     (let n = length (filter (\<lambda>c. key c = k) cs)
      in if n = 0 then d k else Some ((case d k of None \<Rightarrow> 0 | Some m \<Rightarrow> m) + n))"
proof (induction cs arbitrary: d)
  case Nil
  show ?case by simp
next
  case (Cons c cs)
  show ?case
  proof (cases "key c = k")
    case True
    then show ?thesis by (simp add: Cons.IH Let_def)
  next
    case False
    then show ?thesis by (simp add: Cons.IH Let_def)
  qed
qed

lemma group_count_empty:
  "group_count key cs Map.empty k =
     (let n = length (filter (\<lambda>c. key c = k) cs) in if n = 0 then None else Some n)"
  by (simp add: group_count_lookup Let_def)

lemma digit_char_in: "d < 10 \<Longrightarrow> digit_char d \<in> set ''0123456789''"
  unfolding digit_char_def by (rule nth_mem) simp

lemma str_nat_digits: "set (str_nat n) \<subseteq> set ''0123456789''"
proof (induction n rule: str_nat.induct)
  case (1 n)
  show ?case
  proof (cases "n < 10")
    case True
    then show ?thesis using digit_char_in [of n] by (subst str_nat.simps) simp
  next
    case False
    have "digit_char (n mod 10) \<in> set ''0123456789''" by (rule digit_char_in) simp
    with False 1 show ?thesis by (subst str_nat.simps) simp
  qed
qed

lemma zpad_digits: "set (zpad w n) \<subseteq> set ''0123456789''"
  using str_nat_digits [of n] by (auto simp: zpad_def)

lemma iso_date_no_T: "CHR ''T'' \<notin> set (iso_date d)"
  using zpad_digits [of 4 "year d"] zpad_digits [of 2 "month d"] zpad_digits [of 2 "day d"]
  by (auto simp: iso_date_def)

lemma split_T_0_isoformat: "split_T_0 (isoformat d) = iso_date d"
proof -
  have "\<And>x. x \<in> set (iso_date d) \<Longrightarrow> x \<noteq> CHR ''T''" using iso_date_no_T by blast
  then show ?thesis by (simp add: split_T_0_def isoformat_def takeWhile_append2)
qed

subsection \<open>Unknown tokens\<close>

text \<open>
  C2: for a token that is not a key of the token store, \<open>track_click\<close> returns
  \<open>{success: false, error: "Invalid token"}\<close> and the whole store (token records, click
  counts and click lists) is returned unchanged.
\<close>

theorem track_click_unknown_token:
  "tokens st token = None \<Longrightarrow>
   track_click sha256_hex now1 now2 st token ip ua = (Failure (Text ''Invalid token''), st)"
  by (simp add: track_click_def)

theorem track_click_unknown_token_witness:
  "tokens ex_store ''doesnotexist'' = None \<and>
   track_click id (Inl OSError) (Inl OSError) ex_store ''doesnotexist'' ''1.1.1.1'' ''curl/8.0''
     = (Failure (Text ''Invalid token''), ex_store)"
proof -
  have h: "tokens ex_store ''doesnotexist'' = None" by (simp add: ex_store_def)
  show ?thesis using h track_click_unknown_token [OF h] by simp
qed

subsection \<open>Reset\<close>

text \<open>
  C9: \<open>clear_all\<close> empties the token store and the click store, and afterwards
  \<open>get_click_stats\<close> returns \<open>None\<close> for every token string, whatever the store held.
\<close>

theorem clear_all_empties:
  "tokens (clear_all st) = Map.empty \<and> clicks (clear_all st) = Map.empty \<and>
   get_click_stats (clear_all st) token = None"
  by (simp add: clear_all_def get_click_stats_def)

subsection \<open>Statistics\<close>

text \<open>
  C4: \<open>get_click_stats\<close> returns \<open>None\<close> exactly for tokens absent from the token store.
  For a known token, \<open>total_clicks\<close> is the number of click records, \<open>unique_ips\<close> the
  number of distinct \<open>ip_address\<close> values (the same for every reordering of the records),
  and \<open>first_click\<close> / \<open>last_click\<close> are the timestamps of the first and the last record
  of the stored sequence, \<open>None\<close> when it is empty.
\<close>

theorem get_click_stats_summary:
  "(get_click_stats st token = None \<longleftrightarrow> tokens st token = None) \<and>
   (\<forall>td. tokens st token = Some td \<longrightarrow>
      (\<exists>s. get_click_stats st token = Some s \<and>
           total_clicks s = length (clicks_get st token) \<and>
           unique_ips s = card (ip_address ` set (clicks_get st token)) \<and>
           (\<forall>cs'. mset cs' = mset (clicks_get st token) \<longrightarrow>
                  unique_ips s = card (ip_address ` set cs')) \<and>
           first_click s = (case clicks_get st token of [] \<Rightarrow> None | c # _ \<Rightarrow> Some (timestamp c)) \<and>
           last_click s = (case rev (clicks_get st token) of [] \<Rightarrow> None | c # _ \<Rightarrow> Some (timestamp c))))"
proof -
  have fst: "(if cs \<noteq> [] then Some (timestamp (hd cs)) else None)
               = (case cs of [] \<Rightarrow> None | c # _ \<Rightarrow> Some (timestamp c))" for cs :: "click_data list"
    by (cases cs) simp_all
  have lst: "(if cs \<noteq> [] then Some (timestamp (last cs)) else None)
               = (case rev cs of [] \<Rightarrow> None | c # _ \<Rightarrow> Some (timestamp c))" for cs :: "click_data list"
    by (cases cs rule: rev_cases) simp_all
  have perm: "\<And>cs cs' :: click_data list. mset cs' = mset cs \<Longrightarrow> set cs' = set cs"
    by (rule mset_eq_setD)
  show ?thesis
    by (auto simp: get_click_stats_def Let_def fst lst dest: perm split: option.splits)
qed

theorem get_click_stats_summary_witness:
  "get_click_stats ex_store ''doesnotexist'' = None \<and>
   tokens ex_store ''tok'' = Some ex_td \<and>
   (\<exists>s. get_click_stats ex_store ''tok'' = Some s \<and> total_clicks s = 3 \<and> unique_ips s = 2 \<and>
        first_click s = Some ''2025-01-16T08:00:00'' \<and> last_click s = Some ''2025-01-17T08:00:00'')"
proof -
  have n: "tokens ex_store ''doesnotexist'' = None" by (simp add: ex_store_def)
  have h: "tokens ex_store ''tok'' = Some ex_td" by (simp add: ex_store_def)
  have cs: "clicks_get ex_store ''tok'' = ex_clicks"
    by (simp add: ex_store_def clicks_get_def)
  from get_click_stats_summary [of ex_store "''tok''"] h obtain s where
    s: "get_click_stats ex_store ''tok'' = Some s"
       "total_clicks s = length (clicks_get ex_store ''tok'')"
       "unique_ips s = card (ip_address ` set (clicks_get ex_store ''tok''))"
       "first_click s = (case clicks_get ex_store ''tok'' of [] \<Rightarrow> None | c # _ \<Rightarrow> Some (timestamp c))"
       "last_click s = (case rev (clicks_get ex_store ''tok'') of [] \<Rightarrow> None | c # _ \<Rightarrow> Some (timestamp c))"
    by blast
  have "total_clicks s = 3" using s(2) by (simp add: cs ex_clicks_def)
  moreover have "unique_ips s = 2" using s(3) by (simp add: cs ex_clicks_def ex_click_def)
  moreover have "first_click s = Some ''2025-01-16T08:00:00''" using s(4) by (simp add: cs ex_clicks_def ex_click_def)
  moreover have "last_click s = Some ''2025-01-17T08:00:00''" using s(5) by (simp add: cs ex_clicks_def ex_click_def)
  moreover have "get_click_stats ex_store ''doesnotexist'' = None"
    using get_click_stats_summary [of ex_store "''doesnotexist''"] n by simp
  ultimately show ?thesis using h s(1) by blast
qed

subsection \<open>The store invariant\<close>

lemma store_inv_empty: "store_inv empty_store"
  by (simp add: store_inv_def empty_store_def)

lemma store_inv_clear_all: "store_inv (clear_all st)"
  by (simp add: store_inv_def clear_all_def)

lemma store_inv_generate_token:
  assumes inv: "store_inv st"
  shows "store_inv (snd (generate_token rnd now1 now2 st url em camp))"
proof -
  have "store_inv (st\<lparr>tokens := (tokens st)(token \<mapsto> td), clicks := (clicks st)(token \<mapsto> [])\<rparr>)"
    if "click_count td = 0" for token td
    unfolding store_inv_def
  proof (intro allI impI)
    fix k r
    assume r: "tokens (st\<lparr>tokens := (tokens st)(token \<mapsto> td), clicks := (clicks st)(token \<mapsto> [])\<rparr>) k = Some r"
    show "\<exists>cs. clicks (st\<lparr>tokens := (tokens st)(token \<mapsto> td), clicks := (clicks st)(token \<mapsto> [])\<rparr>) k = Some cs
             \<and> click_count r = length cs"
    proof (cases "k = token")
      case True
      with r that show ?thesis by auto
    next
      case False
      with r have "tokens st k = Some r" by simp
      then obtain cs where "clicks st k = Some cs" "click_count r = length cs"
        using inv unfolding store_inv_def by blast
      with False show ?thesis by simp
    qed
  qed
  then show ?thesis using inv
    by (simp add: generate_token_def split: sum.splits)
qed

lemma store_invD:
  "store_inv st \<Longrightarrow> tokens st token = Some td \<Longrightarrow>
   \<exists>cs. clicks st token = Some cs \<and> click_count td = length cs"
  unfolding store_inv_def by blast

lemma track_click_store:
  "snd (track_click sha256_hex now1 now2 st token ip ua) = st \<or>
   (\<exists>td cs cd. tokens st token = Some td \<and> clicks st token = Some cs \<and>
      snd (track_click sha256_hex now1 now2 st token ip ua) =
        st\<lparr>clicks := (clicks st)(token \<mapsto> cs @ [cd]),
           tokens := (tokens st)(token \<mapsto> td\<lparr>click_count := Suc (click_count td)\<rparr>)\<rparr>)"
  by (auto simp: track_click_def Let_def split: sum.splits option.splits)

lemma store_inv_append:
  assumes inv: "store_inv st" and td: "tokens st token = Some td" and cs: "clicks st token = Some cs"
  shows "store_inv (st\<lparr>clicks := (clicks st)(token \<mapsto> cs @ [cd]),
                      tokens := (tokens st)(token \<mapsto> td\<lparr>click_count := Suc (click_count td)\<rparr>)\<rparr>)"
proof -
  from store_invD [OF inv td] cs have len: "click_count td = length cs" by simp
  show ?thesis
    unfolding store_inv_def
  proof (intro allI impI)
    fix k r
    assume r: "tokens (st\<lparr>clicks := (clicks st)(token \<mapsto> cs @ [cd]),
                 tokens := (tokens st)(token \<mapsto> td\<lparr>click_count := Suc (click_count td)\<rparr>)\<rparr>) k = Some r"
    show "\<exists>cs'. clicks (st\<lparr>clicks := (clicks st)(token \<mapsto> cs @ [cd]),
                 tokens := (tokens st)(token \<mapsto> td\<lparr>click_count := Suc (click_count td)\<rparr>)\<rparr>) k = Some cs'
               \<and> click_count r = length cs'"
    proof (cases "k = token")
      case True
      with r len show ?thesis by auto
    next
      case False
      with r have "tokens st k = Some r" by simp
      from store_invD [OF inv this] False show ?thesis by simp
    qed
  qed
qed

lemma store_inv_track_click:
  "store_inv st \<Longrightarrow> store_inv (snd (track_click sha256_hex now1 now2 st token ip ua))"
  using track_click_store [of sha256_hex now1 now2 st token ip ua]
  by (auto simp: store_inv_append)

lemma store_inv_step: "store_inv st \<Longrightarrow> store_inv (step sha256_hex st c)"
  by (cases c) (simp_all add: store_inv_generate_token store_inv_track_click store_inv_clear_all)

lemma store_inv_foldl: "store_inv st \<Longrightarrow> store_inv (foldl (step sha256_hex) st calls)"
  by (induction calls arbitrary: st) (simp_all add: store_inv_step)

lemma store_inv_run: "store_inv (run sha256_hex calls)"
  unfolding run_def by (rule store_inv_foldl) (rule store_inv_empty)

lemma store_inv_total_clicks:
  assumes inv: "store_inv st" and td: "tokens st token = Some td"
  shows "\<exists>s. get_click_stats st token = Some s \<and> total_clicks s = click_count td"
proof -
  from inv td obtain cs where "clicks st token = Some cs" "click_count td = length cs"
    unfolding store_inv_def by blast
  with td show ?thesis
    by (simp add: get_click_stats_def clicks_get_def Let_def)
qed

subsection \<open>Evaluation at the example values\<close>

lemma replicate_numeral: "replicate (numeral k) x = x # replicate (pred_numeral k) x"
  by (simp add: numeral_eq_Suc)

lemmas date_defs = ymd2ord_def days_before_year_def days_before_month_def DAYS_BEFORE_MONTH_def
  DAYS_IN_MONTH_def is_leap_def MAXORDINAL_def ord2ymd_def days_in_month_def valid_datetime_def

lemmas iso_defs = isoformat_def iso_date_def iso_time_def zpad_def str_nat.simps digit_char_def
  replicate_numeral

lemma isoformat_ex_now: "isoformat ex_now = ''2025-01-15T10:30:05''"
  by (simp add: iso_defs ex_now_def)

lemma isoformat_ex_now2: "isoformat ex_now2 = ''2025-01-15T10:30:05.000250''"
  by (simp add: iso_defs ex_now2_def)

lemma isoformat_ex_expiry: "isoformat ex_expiry = ''2025-04-15T10:30:05''"
  by (simp add: iso_defs ex_expiry_def)

lemma isoformat_ex_expiry2: "isoformat ex_expiry2 = ''2025-04-15T10:30:05.000250''"
  by (simp add: iso_defs ex_expiry2_def)

lemma isoformat_ex_later: "isoformat ex_later = ''2025-01-18T08:00:00''"
  by (simp add: iso_defs ex_later_def)


lemma add_days_ex_now2: "add_days ex_now2 90 = Inr ex_expiry2"
  by (simp add: add_days_def date_defs ex_now2_def ex_expiry2_def Let_def)

lemma fromisoformat_ex_expiry: "fromisoformat ''2025-04-15T10:30:05'' = Inr ex_expiry"
  by (simp add: fromisoformat_def digit_val_def date_defs ex_expiry_def Let_def)

lemma fromisoformat_ex_expiry2: "fromisoformat ''2025-04-15T10:30:05.000250'' = Inr ex_expiry2"
  by (simp add: fromisoformat_def digit_val_def date_defs ex_expiry2_def Let_def)


lemma dt_gt_ex_after: "dt_gt ex_after ex_expiry"
  by (simp add: dt_gt_def dt_fields_def ex_after_def ex_expiry_def)

lemma dt_gt_ex_later: "\<not> dt_gt ex_later ex_expiry" "\<not> dt_gt ex_later ex_expiry2" "dt_gt ex_expiry ex_later"
  by (simp_all add: dt_gt_def dt_fields_def ex_later_def ex_expiry_def ex_expiry2_def)

lemma ex_store_tok: "tokens ex_store ''tok'' = Some ex_td" "clicks ex_store ''tok'' = Some ex_clicks"
  "expires_at ex_td = ''2025-04-15T10:30:05''" "target_url ex_td = ''https://example.com/x''"
  "click_count ex_td = 3"
  by (simp_all add: ex_store_def ex_td_def)

lemma store_inv_ex_store: "store_inv ex_store"
  by (simp add: store_inv_def ex_store_def ex_td_def ex_clicks_def)

lemma add_days_ex_last_month: "add_days ex_last_month 90 = Inl OverflowError"
  by (simp add: add_days_def date_defs ex_last_month_def Let_def)

lemma run_ex_calls:
  "tokens (run id ex_calls) ''tok'' =
     Some \<lparr>target_url = ''https://example.com/x'', email = None, campaign = ''default'',
           created_at = ''2025-01-15T10:30:05'', expires_at = ''2025-04-15T10:30:05.000250'',
           click_count = 1\<rparr>"
  by (simp add: run_def ex_calls_def empty_store_def generate_token_def track_click_def Let_def
      add_days_ex_now2 isoformat_ex_now isoformat_ex_expiry2 fromisoformat_ex_expiry2 dt_gt_ex_later)

subsection \<open>The order of datetimes\<close>

lemma lex_gt_irrefl: "\<not> lex_gt xs xs"
  by (induction xs) auto

lemma lex_gt_asym: "lex_gt xs ys \<Longrightarrow> \<not> lex_gt ys xs"
  by (induction xs ys rule: lex_gt.induct) auto

lemma lex_gt_total: "length xs = length ys \<Longrightarrow> lex_gt xs ys \<or> xs = ys \<or> lex_gt ys xs"
  by (induction xs ys rule: list_induct2) auto

lemma dt_fields_inj: "dt_fields a = dt_fields b \<Longrightarrow> a = b"
  by (cases a, cases b) (simp add: dt_fields_def)

lemma dt_gt_irrefl: "\<not> dt_gt a a"
  by (simp add: dt_gt_def lex_gt_irrefl)

lemma dt_gt_asym: "dt_gt a b \<Longrightarrow> \<not> dt_gt b a"
  by (simp add: dt_gt_def lex_gt_asym)

lemma dt_gt_total: "dt_gt a b \<or> a = b \<or> dt_gt b a"
proof -
  have "length (dt_fields a) = length (dt_fields b)" by (simp add: dt_fields_def)
  from lex_gt_total [OF this] show ?thesis
    unfolding dt_gt_def using dt_fields_inj by blast
qed

subsection \<open>A recorded click\<close>

lemma track_click_success:
  assumes td: "tokens st token = Some td"
    and cs: "clicks st token = Some cs"
    and exp: "fromisoformat (expires_at td) = Inr exp"
    and live: "\<not> dt_gt t1 exp"
  shows "track_click sha256_hex (Inr t1) (Inr t2) st token ip ua =
           (Success (target_url td) (isoformat t2) (Suc (click_count td)),
            st\<lparr>clicks := (clicks st)(token \<mapsto> cs @
                    [\<lparr>ip_address = ip, user_agent = ua, timestamp = isoformat t2,
                      click_hash = sha256_hex (token @ '':'' @ ip)\<rparr>]),
               tokens := (tokens st)(token \<mapsto> td\<lparr>click_count := Suc (click_count td)\<rparr>)\<rparr>)"
  using assms by (simp add: track_click_def generate_click_hash_def Let_def)

lemma track_click_expired:
  assumes td: "tokens st token = Some td"
    and exp: "fromisoformat (expires_at td) = Inr exp"
    and late: "dt_gt t1 exp"
  shows "track_click sha256_hex (Inr t1) now2 st token ip ua = (Failure (Text ''Token expired''), st)"
  using assms by (simp add: track_click_def)

text \<open>
  C1: for a token of the store whose expiry has not passed at the reading of the clock,
  \<open>track_click\<close> appends exactly one click record with the given \<open>ip_address\<close> and
  \<open>user_agent\<close>, the second clock reading as timestamp and the digest of \<open>token:ip\<close> as
  \<open>click_hash\<close>; it increments that token's \<open>click_count\<close> by one, leaves every other token
  alone and returns \<open>{success: true, target_url, timestamp, click_count}\<close>. \<open>get_click_stats\<close>
  then shows \<open>total_clicks\<close> one higher and \<open>last_click\<close> equal to the recorded timestamp.
\<close>

theorem track_click_records:
  assumes inv: "store_inv st"
    and td: "tokens st token = Some td"
    and exp: "fromisoformat (expires_at td) = Inr exp"
    and now1: "now1 = Inr t1" and live: "\<not> dt_gt t1 exp"
    and now2: "now2 = Inr t2"
  shows "\<exists>cs st' s s'.
           clicks st token = Some cs \<and>
           track_click sha256_hex now1 now2 st token ip ua =
             (Success (target_url td) (isoformat t2) (click_count td + 1), st') \<and>
           clicks st' token = Some (cs @ [\<lparr>ip_address = ip, user_agent = ua, timestamp = isoformat t2,
                                           click_hash = generate_click_hash sha256_hex token ip\<rparr>]) \<and>
           tokens st' token = Some (td\<lparr>click_count := click_count td + 1\<rparr>) \<and>
           (\<forall>k. k \<noteq> token \<longrightarrow> tokens st' k = tokens st k \<and> clicks st' k = clicks st k) \<and>
           get_click_stats st token = Some s \<and> get_click_stats st' token = Some s' \<and>
           total_clicks s' = total_clicks s + 1 \<and> last_click s' = Some (isoformat t2)"
proof -
  from store_invD [OF inv td] obtain cs where cs: "clicks st token = Some cs" by blast
  let ?cd = "\<lparr>ip_address = ip, user_agent = ua, timestamp = isoformat t2,
              click_hash = sha256_hex (token @ '':'' @ ip)\<rparr>"
  let ?st' = "st\<lparr>clicks := (clicks st)(token \<mapsto> cs @ [?cd]),
                 tokens := (tokens st)(token \<mapsto> td\<lparr>click_count := Suc (click_count td)\<rparr>)\<rparr>"
  have run: "track_click sha256_hex now1 now2 st token ip ua =
               (Success (target_url td) (isoformat t2) (Suc (click_count td)), ?st')"
    unfolding now1 now2 by (rule track_click_success [OF td cs exp live])
  have s: "get_click_stats st token \<noteq> None" using td by (simp add: get_click_stats_def Let_def)
  then obtain s where s: "get_click_stats st token = Some s" by blast
  have ts: "total_clicks s = length cs"
    using s td cs by (auto simp: get_click_stats_def clicks_get_def Let_def)
  obtain s' where s': "get_click_stats ?st' token = Some s'"
    by (simp add: get_click_stats_def Let_def)
  have ts': "total_clicks s' = Suc (length cs)" "last_click s' = Some (isoformat t2)"
    using s' by (auto simp: get_click_stats_def clicks_get_def Let_def)
  show ?thesis
    using cs run s s' ts ts' by (simp add: generate_click_hash_def)
qed

theorem track_click_records_witness:
  "\<exists>st' s'. track_click id (Inr ex_later) (Inr ex_later) ex_store ''tok'' ''3.3.3.3'' ''curl/8.0'' =
             (Success ''https://example.com/x'' ''2025-01-18T08:00:00'' 4, st') \<and>
           clicks st' ''tok'' = Some (ex_clicks @
              [\<lparr>ip_address = ''3.3.3.3'', user_agent = ''curl/8.0'', timestamp = ''2025-01-18T08:00:00'',
                click_hash = ''tok:3.3.3.3''\<rparr>]) \<and>
           get_click_stats st' ''tok'' = Some s' \<and> total_clicks s' = 4 \<and>
           last_click s' = Some ''2025-01-18T08:00:00''"
proof -
  have exp: "fromisoformat (expires_at ex_td) = Inr ex_expiry"
    by (simp add: ex_store_tok fromisoformat_ex_expiry)
  have s: "get_click_stats ex_store ''tok'' = Some s \<Longrightarrow> total_clicks s = 3" for s
    by (auto simp: get_click_stats_def clicks_get_def ex_store_tok ex_clicks_def Let_def)
  from track_click_records [where sha256_hex = id and ip = "''3.3.3.3''" and ua = "''curl/8.0''",
      OF store_inv_ex_store ex_store_tok(1) exp refl dt_gt_ex_later(1) refl]
  obtain cs st' s s' where
    r: "clicks ex_store ''tok'' = Some cs"
       "track_click id (Inr ex_later) (Inr ex_later) ex_store ''tok'' ''3.3.3.3'' ''curl/8.0'' =
          (Success (target_url ex_td) (isoformat ex_later) (click_count ex_td + 1), st')"
       "clicks st' ''tok'' = Some (cs @ [\<lparr>ip_address = ''3.3.3.3'', user_agent = ''curl/8.0'',
           timestamp = isoformat ex_later, click_hash = generate_click_hash id ''tok'' ''3.3.3.3''\<rparr>])"
       "get_click_stats ex_store ''tok'' = Some s" "get_click_stats st' ''tok'' = Some s'"
       "total_clicks s' = total_clicks s + 1" "last_click s' = Some (isoformat ex_later)"
    by blast
  from r(1) have cs: "cs = ex_clicks" by (simp add: ex_store_tok)
  show ?thesis
    using r(2,3,5,6,7) s [OF r(4)] cs
    by (simp add: ex_store_tok isoformat_ex_later generate_click_hash_def)
qed

text \<open>
  C3: for a stored token, a clock reading strictly after \<open>expires_at\<close> makes \<open>track_click\<close>
  return \<open>{success: false, error: "Token expired"}\<close>, which differs from the outcome for an
  unknown token, and the store is unchanged; a reading equal to or before \<open>expires_at\<close>
  (one of the three cases always holds) makes it record the click.
\<close>

theorem track_click_expiry:
  assumes td: "tokens st token = Some td"
    and exp: "fromisoformat (expires_at td) = Inr exp"
    and now1: "now1 = Inr t1"
  shows "(dt_gt t1 exp \<longrightarrow>
            track_click sha256_hex now1 now2 st token ip ua = (Failure (Text ''Token expired''), st)) \<and>
         Failure (Text ''Token expired'') \<noteq> Failure (Text ''Invalid token'') \<and>
         (dt_gt t1 exp \<or> t1 = exp \<or> dt_gt exp t1) \<and>
         (t1 = exp \<or> dt_gt exp t1 \<longrightarrow> store_inv st \<longrightarrow> now2 = Inr t2 \<longrightarrow>
            (\<exists>st'. track_click sha256_hex now1 now2 st token ip ua =
                     (Success (target_url td) (isoformat t2) (click_count td + 1), st') \<and>
                   clicks_get st' token = clicks_get st token @
                     [\<lparr>ip_address = ip, user_agent = ua, timestamp = isoformat t2,
                       click_hash = generate_click_hash sha256_hex token ip\<rparr>]))"
proof (intro conjI impI)
  assume "dt_gt t1 exp"
  then show "track_click sha256_hex now1 now2 st token ip ua = (Failure (Text ''Token expired''), st)"
    unfolding now1 by (rule track_click_expired [OF td exp])
next
  show "Failure (Text ''Token expired'') \<noteq> Failure (Text ''Invalid token'')" by simp
next
  show "dt_gt t1 exp \<or> t1 = exp \<or> dt_gt exp t1" by (rule dt_gt_total)
next
  assume le: "t1 = exp \<or> dt_gt exp t1" and inv: "store_inv st" and now2: "now2 = Inr t2"
  from le have live: "\<not> dt_gt t1 exp" using dt_gt_irrefl dt_gt_asym by blast
  from store_invD [OF inv td] obtain cs where cs: "clicks st token = Some cs" by blast
  show "\<exists>st'. track_click sha256_hex now1 now2 st token ip ua =
                     (Success (target_url td) (isoformat t2) (click_count td + 1), st') \<and>
                   clicks_get st' token = clicks_get st token @
                     [\<lparr>ip_address = ip, user_agent = ua, timestamp = isoformat t2,
                       click_hash = generate_click_hash sha256_hex token ip\<rparr>]"
    unfolding now1 now2 track_click_success [OF td cs exp live]
    by (simp add: clicks_get_def cs generate_click_hash_def)
qed

theorem track_click_expiry_witness:
  "track_click id (Inr ex_after) (Inr ex_after) ex_store ''tok'' ''3.3.3.3'' ''curl/8.0'' =
     (Failure (Text ''Token expired''), ex_store) \<and>
   (\<exists>st'. track_click id (Inr ex_expiry) (Inr ex_expiry) ex_store ''tok'' ''3.3.3.3'' ''curl/8.0'' =
            (Success ''https://example.com/x'' ''2025-04-15T10:30:05'' 4, st'))"
proof -
  have exp: "fromisoformat (expires_at ex_td) = Inr ex_expiry"
    by (simp add: ex_store_tok fromisoformat_ex_expiry)
  have a: "track_click id (Inr ex_after) (Inr ex_after) ex_store ''tok'' ''3.3.3.3'' ''curl/8.0'' =
     (Failure (Text ''Token expired''), ex_store)"
    using track_click_expiry [where ?t1.0 = ex_after, OF ex_store_tok(1) exp refl] dt_gt_ex_after by blast
  have b: "\<exists>st'. track_click id (Inr ex_expiry) (Inr ex_expiry) ex_store ''tok'' ''3.3.3.3'' ''curl/8.0'' =
            (Success ''https://example.com/x'' ''2025-04-15T10:30:05'' 4, st')"
    using track_click_expiry [where ?t1.0 = ex_expiry and ?now2.0 = "Inr ex_expiry" and ?t2.0 = ex_expiry
        and sha256_hex = id and ip = "''3.3.3.3''" and ua = "''curl/8.0''", OF ex_store_tok(1) exp refl]
      store_inv_ex_store
    by (auto simp: ex_store_tok isoformat_ex_expiry)
  from a b show ?thesis by blast
qed

subsection \<open>Every reachable store\<close>

text \<open>
  C10: after any sequence of \<open>generate_token\<close>, \<open>track_click\<close>, \<open>get_click_stats\<close>,
  \<open>get_token_info\<close> and \<open>clear_all\<close> calls, starting from the empty store and whatever the
  clock and the random source answered, every token of the token store has a click list
  whose length is the token's \<open>click_count\<close>; \<open>get_token_info\<close> returns the record with that
  list, and \<open>get_click_stats\<close> reports the count as \<open>total_clicks\<close>.
\<close>

theorem store_invariant:
  "store_inv (run sha256_hex calls) \<and>
   (\<forall>token td. tokens (run sha256_hex calls) token = Some td \<longrightarrow>
      (\<exists>cs s. clicks (run sha256_hex calls) token = Some cs \<and> click_count td = length cs \<and>
             get_token_info (run sha256_hex calls) token = Some (td, cs) \<and>
             get_click_stats (run sha256_hex calls) token = Some s \<and>
             total_clicks s = click_count td))"
proof -
  have inv: "store_inv (run sha256_hex calls)" by (rule store_inv_run)
  show ?thesis
  proof (intro conjI allI impI)
    show "store_inv (run sha256_hex calls)" by (rule inv)
  next
    fix token td
    assume td: "tokens (run sha256_hex calls) token = Some td"
    from store_invD [OF inv td] obtain cs where
      cs: "clicks (run sha256_hex calls) token = Some cs" "click_count td = length cs" by blast
    have info: "get_token_info (run sha256_hex calls) token = Some (td, cs)"
      by (simp add: get_token_info_def clicks_get_def td cs)
    from store_inv_total_clicks [OF inv td] obtain s where
      "get_click_stats (run sha256_hex calls) token = Some s" "total_clicks s = click_count td"
      by blast
    with cs info
    show "\<exists>cs s. clicks (run sha256_hex calls) token = Some cs \<and> click_count td = length cs \<and>
             get_token_info (run sha256_hex calls) token = Some (td, cs) \<and>
             get_click_stats (run sha256_hex calls) token = Some s \<and> total_clicks s = click_count td"
      by blast
  qed
qed

theorem store_invariant_witness:
  "tokens (run id ex_calls) ''tok'' =
     Some \<lparr>target_url = ''https://example.com/x'', email = None, campaign = ''default'',
           created_at = ''2025-01-15T10:30:05'', expires_at = ''2025-04-15T10:30:05.000250'',
           click_count = 1\<rparr> \<and>
   (\<exists>cs s. clicks (run id ex_calls) ''tok'' = Some cs \<and> length cs = 1 \<and>
          get_click_stats (run id ex_calls) ''tok'' = Some s \<and> total_clicks s = 1)"
  using store_invariant [of id ex_calls] run_ex_calls by fastforce

subsection \<open>Token creation\<close>




subsection \<open>Faults\<close>

text \<open>
  A clock failure inside \<open>track_click\<close> does not reach the caller as an exception: the
  handler turns it into the ordinary result \<open>{success: false, error: str(e)}\<close>.
\<close>

theorem track_click_fault_counterexample:
  "track_click id (Inl OSError) (Inl OSError) ex_store ''tok'' ''3.3.3.3'' ''curl/8.0'' =
     (Failure (Str_of OSError), ex_store)"
  by (simp add: track_click_def ex_store_tok fromisoformat_ex_expiry)

text \<open>
  C6, as the code has it: a fault of the random source, of either clock reading or of the
  date addition inside \<open>generate_token\<close> leaves as that same exception, with the store
  unchanged; a clock fault inside \<open>track_click\<close> is caught and returned as
  \<open>{success: false, error: str(e)}\<close>, with the store unchanged. Neither retries.
\<close>

theorem fault_handling:
  "(rnd = Inl e \<longrightarrow> generate_token rnd now1 now2 st url em camp = (Inl e, st)) \<and>
   (rnd = Inr token \<longrightarrow> now1 = Inl e \<longrightarrow>
      generate_token rnd now1 now2 st url em camp = (Inl e, st)) \<and>
   (rnd = Inr token \<longrightarrow> now1 = Inr t1 \<longrightarrow> now2 = Inl e \<longrightarrow>
      generate_token rnd now1 now2 st url em camp = (Inl e, st)) \<and>
   (rnd = Inr token \<longrightarrow> now1 = Inr t1 \<longrightarrow> now2 = Inr t2 \<longrightarrow> add_days t2 90 = Inl e \<longrightarrow>
      generate_token rnd now1 now2 st url em camp = (Inl e, st)) \<and>
   (tokens st tok = Some td \<longrightarrow> fromisoformat (expires_at td) = Inr exp \<longrightarrow> now1 = Inl e \<longrightarrow>
      track_click sha256_hex now1 now2 st tok ip ua = (Failure (Str_of e), st)) \<and>
   (tokens st tok = Some td \<longrightarrow> fromisoformat (expires_at td) = Inr exp \<longrightarrow> now1 = Inr t1 \<longrightarrow>
      \<not> dt_gt t1 exp \<longrightarrow> now2 = Inl e \<longrightarrow>
      track_click sha256_hex now1 now2 st tok ip ua = (Failure (Str_of e), st))"
  by (simp add: generate_token_def track_click_def)

theorem fault_handling_witness:
  "generate_token (Inl OSError) (Inr ex_now) (Inr ex_now2) ex_store ''u'' None ''c'' = (Inl OSError, ex_store) \<and>
   generate_token (Inr ''t'') (Inl OSError) (Inr ex_now2) ex_store ''u'' None ''c'' = (Inl OSError, ex_store) \<and>
   generate_token (Inr ''t'') (Inr ex_now) (Inl OSError) ex_store ''u'' None ''c'' = (Inl OSError, ex_store) \<and>
   generate_token (Inr ''t'') (Inr ex_now) (Inr ex_last_month) ex_store ''u'' None ''c'' =
     (Inl OverflowError, ex_store) \<and>
   track_click id (Inl OSError) (Inr ex_later) ex_store ''tok'' ''3.3.3.3'' ''curl/8.0'' =
     (Failure (Str_of OSError), ex_store) \<and>
   track_click id (Inr ex_later) (Inl OSError) ex_store ''tok'' ''3.3.3.3'' ''curl/8.0'' =
     (Failure (Str_of OSError), ex_store)"
proof -
  have exp: "fromisoformat (expires_at ex_td) = Inr ex_expiry"
    by (simp add: ex_store_tok fromisoformat_ex_expiry)
  note f = fault_handling [where st = ex_store and url = "''u''" and em = None and camp = "''c''"
      and tok = "''tok''" and td = ex_td and exp = ex_expiry and sha256_hex = id
      and ip = "''3.3.3.3''" and ua = "''curl/8.0''"]
  have "generate_token (Inl OSError) (Inr ex_now) (Inr ex_now2) ex_store ''u'' None ''c'' = (Inl OSError, ex_store)"
    using f [where rnd = "Inl OSError" and e = OSError] by simp
  moreover have "generate_token (Inr ''t'') (Inl OSError) (Inr ex_now2) ex_store ''u'' None ''c'' = (Inl OSError, ex_store)"
    using f [where rnd = "Inr ''t''" and token = "''t''" and ?now1.0 = "Inl OSError" and e = OSError] by simp
  moreover have "generate_token (Inr ''t'') (Inr ex_now) (Inl OSError) ex_store ''u'' None ''c'' = (Inl OSError, ex_store)"
    using f [where rnd = "Inr ''t''" and token = "''t''" and ?now1.0 = "Inr ex_now" and ?t1.0 = ex_now
        and ?now2.0 = "Inl OSError" and e = OSError] by simp
  moreover have "generate_token (Inr ''t'') (Inr ex_now) (Inr ex_last_month) ex_store ''u'' None ''c'' =
     (Inl OverflowError, ex_store)"
    using f [where rnd = "Inr ''t''" and token = "''t''" and ?now1.0 = "Inr ex_now" and ?t1.0 = ex_now
        and ?now2.0 = "Inr ex_last_month" and ?t2.0 = ex_last_month and e = OverflowError]
      add_days_ex_last_month by simp
  moreover have "track_click id (Inl OSError) (Inr ex_later) ex_store ''tok'' ''3.3.3.3'' ''curl/8.0'' =
     (Failure (Str_of OSError), ex_store)"
    using f [where ?now1.0 = "Inl OSError" and e = OSError and ?now2.0 = "Inr ex_later"] exp ex_store_tok(1) by simp
  moreover have "track_click id (Inr ex_later) (Inl OSError) ex_store ''tok'' ''3.3.3.3'' ''curl/8.0'' =
     (Failure (Str_of OSError), ex_store)"
    using f [where ?now1.0 = "Inr ex_later" and ?t1.0 = ex_later and e = OSError and ?now2.0 = "Inl OSError"]
      exp ex_store_tok(1) dt_gt_ex_later(1) by simp
  ultimately show ?thesis by blast
qed

subsection \<open>Grouped statistics\<close>

text \<open>
  C7: for a known token, \<open>clicks_by_date\<close> maps each date (the part of a click's timestamp
  before its first \<open>T\<close>, which for a timestamp written by \<open>isoformat\<close> is the calendar date
  \<open>YYYY-MM-DD\<close>) to the number of clicks with that date, and \<open>clicks_by_user_agent\<close> maps
  each 50-character prefix of a user agent to the number of clicks whose user agent has that
  prefix, so user agents that agree on their first 50 characters share one bucket. Keys
  without a click are absent.
\<close>

theorem get_click_stats_groups:
  assumes "tokens st token = Some td"
  shows "\<exists>s. get_click_stats st token = Some s \<and>
           (\<forall>d. clicks_by_date s d =
                  (let n = length (filter (\<lambda>c. split_T_0 (timestamp c) = d) (clicks_get st token))
                   in if n = 0 then None else Some n)) \<and>
           (\<forall>p. clicks_by_user_agent s p =
                  (let n = length (filter (\<lambda>c. take 50 (user_agent c) = p) (clicks_get st token))
                   in if n = 0 then None else Some n)) \<and>
           (\<forall>c \<in> set (clicks_get st token). \<forall>t.
              timestamp c = isoformat t \<longrightarrow> split_T_0 (timestamp c) = iso_date t)"
  using assms
  by (simp add: get_click_stats_def group_count_empty split_T_0_isoformat Let_def)

theorem get_click_stats_groups_witness:
  "\<exists>s. get_click_stats ex_store ''tok'' = Some s \<and>
       clicks_by_date s ''2025-01-16'' = Some 2 \<and> clicks_by_date s ''2025-01-17'' = Some 1 \<and>
       clicks_by_date s ''2025-01-18'' = None \<and>
       ex_ua1 \<noteq> ex_ua2 \<and> take 50 ex_ua1 = take 50 ex_ua2 \<and>
       clicks_by_user_agent s (take 50 ex_ua1) = Some 2 \<and>
       clicks_by_user_agent s ex_ua1 = None \<and>
       clicks_by_user_agent s ''curl/8.0'' = Some 1"
proof -
  have cs: "clicks_get ex_store ''tok'' = ex_clicks"
    by (simp add: clicks_get_def ex_store_tok)
  from get_click_stats_groups [OF ex_store_tok(1)] obtain s where
    s: "get_click_stats ex_store ''tok'' = Some s"
      "\<And>d. clicks_by_date s d =
               (let n = length (filter (\<lambda>c. split_T_0 (timestamp c) = d) (clicks_get ex_store ''tok''))
                in if n = 0 then None else Some n)"
      "\<And>p. clicks_by_user_agent s p =
               (let n = length (filter (\<lambda>c. take 50 (user_agent c) = p) (clicks_get ex_store ''tok''))
                in if n = 0 then None else Some n)"
    by blast
  have "clicks_by_date s ''2025-01-16'' = Some 2" "clicks_by_date s ''2025-01-17'' = Some 1"
       "clicks_by_date s ''2025-01-18'' = None"
    by (simp_all add: s(2) cs ex_clicks_def ex_click_def split_T_0_def)
  moreover have "ex_ua1 \<noteq> ex_ua2" "take 50 ex_ua1 = take 50 ex_ua2"
    by (simp_all add: ex_ua1_def ex_ua2_def)
  moreover have "clicks_by_user_agent s (take 50 ex_ua1) = Some 2"
       "clicks_by_user_agent s ex_ua1 = None" "clicks_by_user_agent s ''curl/8.0'' = Some 1"
    by (simp_all add: s(3) cs ex_clicks_def ex_click_def ex_ua1_def ex_ua2_def)
  ultimately show ?thesis using s(1) by blast
qed

subsection \<open>The validators\<close>



























end
